theory Spec2Isabelle
  imports Complex_Main
begin

section \<open>JavaScript values used by script.js\<close>

text \<open>
  A JavaScript Number is NaN, an infinity or a finite value. Finite values are modelled
  as reals: the controller only compares and stores numbers, and \<open>-0\<close> and \<open>+0\<close>
  (equal under \<open>===\<close>, both printed as 0) are the same value. The one addition of the
  script, \<open>Date.now() + Math.random()\<close>, is the runtime's binary64 addition, which rounds;
  it is a parameter of the model (\<open>Number_plus\<close> below) and nothing is assumed about it.
\<close>

datatype jsnum = NaN | NegInf | Fin real | PosInf

text \<open>The relational operator \<open>a < b\<close> on Numbers: false as soon as one side is NaN.\<close>

fun js_lt :: "jsnum \<Rightarrow> jsnum \<Rightarrow> bool" where
  "js_lt NaN b = False"
| "js_lt a NaN = False"
| "js_lt PosInf b = False"
| "js_lt a NegInf = False"
| "js_lt NegInf b = True"
| "js_lt a PosInf = True"
| "js_lt (Fin x) (Fin y) = (x < y)"

text \<open>Strict equality \<open>a === b\<close> on Numbers: NaN equals nothing, itself included.\<close>

definition js_eq :: "jsnum \<Rightarrow> jsnum \<Rightarrow> bool" where
  "js_eq a b = (a \<noteq> NaN \<and> a = b)"

definition js_le :: "jsnum \<Rightarrow> jsnum \<Rightarrow> bool" where
  "js_le a b = (js_lt a b \<or> js_eq a b)"

text \<open>\<open>Math.min\<close> and \<open>Math.max\<close> of two Numbers: NaN if either argument is NaN.\<close>

definition Math_min :: "jsnum \<Rightarrow> jsnum \<Rightarrow> jsnum" where
  "Math_min a b = (if a = NaN \<or> b = NaN then NaN else if js_lt b a then b else a)"

definition Math_max :: "jsnum \<Rightarrow> jsnum \<Rightarrow> jsnum" where
  "Math_max a b = (if a = NaN \<or> b = NaN then NaN else if js_lt a b then b else a)"

text \<open>
  The argument \<open>deviceId\<close> of \<open>removeDevice\<close> and \<open>getDevice\<close> is a Number, a String (the
  page passes the id as text) or any other value (undefined, null, a boolean, an object).
\<close>

datatype jsval = JNum jsnum | JStr string | JOther

text \<open>
  The runtime as one call sees it: the answers of \<open>Date.now()\<close>, \<open>Math.random()\<close> and
  \<open>new Date().toLocaleTimeString()\<close>, and its addition of two Numbers.
\<close>

record env =
  Date_now :: real
  Math_random :: real
  toLocaleTimeString :: string
  Number_plus :: "real \<Rightarrow> real \<Rightarrow> jsnum"

section \<open>class Device\<close>

record device =
  name :: string
  type :: string
  powerState :: bool
  connectivity :: string
  id_d :: jsnum

text \<open>The object every operation returns: \<open>{ success, message }\<close>.\<close>

record outcome =
  success :: bool
  message :: string

record status =
  name_s :: string
  type_s :: string
  power_s :: string
  connectivity_s :: string

definition Device_constructor :: "env \<Rightarrow> string \<Rightarrow> string \<Rightarrow> device" where
  "Device_constructor e nm ty =
     \<lparr>name = nm, type = ty, powerState = False, connectivity = ''online'',
      id_d = Number_plus e (Date_now e) (Math_random e)\<rparr>"

definition Device_togglePower :: "'a device_scheme \<Rightarrow> 'a device_scheme \<times> outcome" where
  "Device_togglePower d =
     (if connectivity d = ''offline''
      then (d, \<lparr>success = False, message = ''Device is offline''\<rparr>)
      else (let d' = d\<lparr>powerState := \<not> powerState d\<rparr>
            in (d', \<lparr>success = True,
                     message = ''Device turned '' @ (if powerState d' then ''ON'' else ''OFF'')\<rparr>)))"

definition getStatus :: "'a device_scheme \<Rightarrow> status" where
  "getStatus d =
     \<lparr>name_s = name d, type_s = type d,
      power_s = (if powerState d then ''ON'' else ''OFF''),
      connectivity_s = connectivity d\<rparr>"

definition setConnectivity :: "string \<Rightarrow> 'a device_scheme \<Rightarrow> 'a device_scheme" where
  "setConnectivity st d = d\<lparr>connectivity := st\<rparr>"

section \<open>class SmartDevice extends Device\<close>

record adjustable_param =
  name_p :: string
  value_p :: jsnum
  min_p :: jsnum
  max_p :: jsnum

record smart_device = device +
  hasAdjustable :: bool
  adjustableParam :: adjustable_param

text \<open>
  The constructor's fourth argument is an object or null (\<open>None\<close>); a null argument is
  replaced by the Level profile (\<open>adjustableParam || {...}\<close>).
\<close>

definition SmartDevice_constructor ::
  "env \<Rightarrow> string \<Rightarrow> string \<Rightarrow> bool \<Rightarrow> adjustable_param option \<Rightarrow> smart_device" where
  "SmartDevice_constructor e nm ty hasAdj param =
     device.extend (Device_constructor e nm ty)
       (smart_device.fields hasAdj
          (case param of
             Some p \<Rightarrow> p
           | None \<Rightarrow> \<lparr>name_p = ''Level'', value_p = Fin 50, min_p = Fin 0, max_p = Fin 100\<rparr>))"

text \<open>
  \<open>updateAdjustable(value)\<close>. The template literal turns the clamped Number into text
  with the runtime's Number-to-String conversion, the parameter \<open>toStr\<close>.
\<close>

definition updateAdjustable ::
  "(jsnum \<Rightarrow> string) \<Rightarrow> jsnum \<Rightarrow> smart_device \<Rightarrow> smart_device \<times> outcome" where
  "updateAdjustable toStr v d =
     (if connectivity d = ''offline''
      then (d, \<lparr>success = False, message = ''Device is offline''\<rparr>)
      else (let clampedValue =
                  Math_max (min_p (adjustableParam d)) (Math_min (max_p (adjustableParam d)) v);
                d' = d\<lparr>adjustableParam := (adjustableParam d)\<lparr>value_p := clampedValue\<rparr>\<rparr>
            in (d', \<lparr>success = True,
                     message = name_p (adjustableParam d') @ '' set to '' @ toStr clampedValue\<rparr>)))"

text \<open>The override calls \<open>super.togglePower()\<close> and returns its result.\<close>

definition SmartDevice_togglePower :: "smart_device \<Rightarrow> smart_device \<times> outcome" where
  "SmartDevice_togglePower d = (let result = Device_togglePower d in result)"

section \<open>class DeviceController\<close>

text \<open>
  The page's element \<open>#activityLog\<close> holds the log: its child nodes, first child first.
  \<open>ElementNode h\<close> is an element with inner HTML \<open>h\<close>; \<open>TextNode\<close> is any other node
  (text, comment), which \<open>children\<close> does not count.
\<close>

datatype node = ElementNode string | TextNode string

fun isElement :: "node \<Rightarrow> bool" where
  "isElement (ElementNode h) = True"
| "isElement (TextNode t) = False"

definition children :: "node list \<Rightarrow> node list" where
  "children ns = filter isElement ns"

text \<open>
  The state the controller works on: its array \<open>devices\<close> and the child nodes of
  \<open>#activityLog\<close>. The page is taken to have that element, as the script's own top-level
  code takes its form and grid to exist.
\<close>

record state =
  devices :: "smart_device list"
  activityLog :: "node list"

definition DeviceController_constructor :: "node list \<Rightarrow> state" where
  "DeviceController_constructor ns = \<lparr>devices = [], activityLog = ns\<rparr>"

text \<open>The inner HTML of a log entry, with the template's line breaks and indentation.\<close>

definition logEntry :: "string \<Rightarrow> string \<Rightarrow> string" where
  "logEntry timestamp msg =
     [CHR 0x0A] @ ''            <span class=\"timestamp\">['' @ timestamp @ '']</span> '' @ msg
       @ [CHR 0x0A] @ ''        ''"

text \<open>
  The loop \<open>while (logContainer.children.length > 50) removeChild(lastChild)\<close>: the last
  child node goes, element or not, while more than 50 elements are left.
\<close>

function logActivity_loop :: "node list \<Rightarrow> node list" where
  "logActivity_loop ns =
     (if length (children ns) > 50 then logActivity_loop (butlast ns) else ns)"
  by pat_completeness auto
termination
proof (relation "measure length")
  show "wf (measure length)" by simp
next
  fix ns :: "node list"
  assume "50 < length (children ns)"
  then have "ns \<noteq> []" by (auto simp: children_def)
  then show "(butlast ns, ns) \<in> measure length" by simp
qed

declare logActivity_loop.simps [simp del]

definition logActivity :: "env \<Rightarrow> string \<Rightarrow> state \<Rightarrow> state" where
  "logActivity e msg s =
     (let timestamp = toLocaleTimeString e;
          entry = ElementNode (logEntry timestamp msg)
      in s\<lparr>activityLog := logActivity_loop (entry # activityLog s)\<rparr>)"

text \<open>
  The two pictographs of the log messages, as the UTF-8 bytes of the source file
  (U+2705; U+1F5D1 U+FE0F). No property below depends on the length of a message.
\<close>

definition check_mark :: string where
  "check_mark = [CHR 0xE2, CHR 0x9C, CHR 0x85]"

definition wastebasket :: string where
  "wastebasket = [CHR 0xF0, CHR 0x9F, CHR 0x97, CHR 0x91, CHR 0xEF, CHR 0xB8, CHR 0x8F]"

definition addDevice :: "env \<Rightarrow> string \<Rightarrow> string \<Rightarrow> string \<Rightarrow> state \<Rightarrow> state \<times> smart_device" where
  "addDevice e nm ty conn s =
     (let hasAdj = (ty \<in> set [''light'', ''fan'', ''ac'', ''thermostat'']);
          param =
            (if ty = ''light'' then
               \<lparr>name_p = ''Brightness'', value_p = Fin 50, min_p = Fin 0, max_p = Fin 100\<rparr>
             else if ty = ''fan'' then
               \<lparr>name_p = ''Speed'', value_p = Fin 3, min_p = Fin 0, max_p = Fin 5\<rparr>
             else if ty = ''ac'' then
               \<lparr>name_p = ''Temperature'', value_p = Fin 24, min_p = Fin 16, max_p = Fin 30\<rparr>
             else if ty = ''thermostat'' then
               \<lparr>name_p = ''Temperature'', value_p = Fin 22, min_p = Fin 16, max_p = Fin 30\<rparr>
             else
               \<lparr>name_p = ''Level'', value_p = Fin 50, min_p = Fin 0, max_p = Fin 100\<rparr>);
          dev = setConnectivity conn (SmartDevice_constructor e nm ty hasAdj (Some param));
          s1 = s\<lparr>devices := devices s @ [dev]\<rparr>;
          s2 = logActivity e
                 (check_mark @ '' Added new '' @ ty @ '': \"'' @ nm @ ''\" ('' @ conn @ '')'') s1
      in (s2, dev))"

text \<open>
  \<open>parsedId\<close>: a String goes through the runtime's \<open>parseFloat\<close> (the parameter \<open>pf\<close>),
  any other value is taken as it is.
\<close>

definition parsedId :: "(string \<Rightarrow> jsnum) \<Rightarrow> jsval \<Rightarrow> jsval" where
  "parsedId pf deviceId = (case deviceId of JStr str \<Rightarrow> JNum (pf str) | _ \<Rightarrow> deviceId)"

text \<open>\<open>d.id === parsedId\<close>, where \<open>d.id\<close> is a Number: false for every non-Number.\<close>

fun id_matches :: "jsval \<Rightarrow> smart_device \<Rightarrow> bool" where
  "id_matches (JNum x) d = js_eq (id_d d) x"
| "id_matches (JStr str) d = False"
| "id_matches JOther d = False"

text \<open>\<open>Array.prototype.findIndex\<close>: the index of the first match, or -1.\<close>

fun findIndex :: "('a \<Rightarrow> bool) \<Rightarrow> 'a list \<Rightarrow> int" where
  "findIndex p [] = - 1"
| "findIndex p (x # xs) =
     (if p x then 0 else (let i = findIndex p xs in if i = - 1 then - 1 else i + 1))"

text \<open>\<open>splice(index, 1)\<close> for an index inside the array.\<close>

definition splice1 :: "nat \<Rightarrow> 'a list \<Rightarrow> 'a list" where
  "splice1 i xs = take i xs @ drop (Suc i) xs"

text \<open>
  \<open>removeDevice(deviceId)\<close>; the call of \<open>console.error\<close> on the failure path writes to
  the console only and is left out.
\<close>

definition removeDevice :: "(string \<Rightarrow> jsnum) \<Rightarrow> env \<Rightarrow> jsval \<Rightarrow> state \<Rightarrow> state \<times> bool" where
  "removeDevice pf e deviceId s =
     (let pid = parsedId pf deviceId;
          index = findIndex (id_matches pid) (devices s)
      in if index \<noteq> - 1 then
           (let dev = devices s ! nat index;
                s1 = s\<lparr>devices := splice1 (nat index) (devices s)\<rparr>;
                s2 = logActivity e (wastebasket @ '' Removed device: \"'' @ name dev @ ''\"'') s1
            in (s2, True))
         else (s, False))"

text \<open>\<open>getDevice(deviceId)\<close>: the first match, or undefined (\<open>None\<close>).\<close>

definition getDevice :: "(string \<Rightarrow> jsnum) \<Rightarrow> jsval \<Rightarrow> state \<Rightarrow> smart_device option" where
  "getDevice pf deviceId s = find (id_matches (parsedId pf deviceId)) (devices s)"

definition getAllDevices :: "state \<Rightarrow> smart_device list" where
  "getAllDevices s = devices s"

section \<open>Definitions used to state the properties\<close>

text \<open>
  The clamp of the specification, in its own words: a value below \<open>min\<close> becomes \<open>min\<close>,
  a value above \<open>max\<close> becomes \<open>max\<close>, any other value is kept.
\<close>

definition clamp_spec :: "jsnum \<Rightarrow> jsnum \<Rightarrow> jsnum \<Rightarrow> jsnum" where
  "clamp_spec v lo hi = (if js_lt v lo then lo else if js_lt hi v then hi else v)"

text \<open>A sequence of \<open>logActivity\<close> calls, each with what the runtime answers and its message.\<close>

fun logActivity_calls :: "(env \<times> string) list \<Rightarrow> state \<Rightarrow> state" where
  "logActivity_calls [] s = s"
| "logActivity_calls (c # cs) s = logActivity_calls cs (logActivity (fst c) (snd c) s)"

text \<open>The log entry one call creates.\<close>

definition entryOf :: "env \<times> string \<Rightarrow> node" where
  "entryOf c = ElementNode (logEntry (toLocaleTimeString (fst c)) (snd c))"

section \<open>A sample household\<close>

text \<open>
  Runtime answers, the registry of the page's start-up devices, two of its devices, and
  stand-ins for the runtime's addition (right for the clock values of the examples), its
  Number-to-String conversion (right on the integral values of the examples) and
  \<open>parseFloat\<close> (right on the one numeral of the examples). The theorems below hold for
  every addition and conversion; the samples only instantiate them.
\<close>

definition round_half_even :: "real \<Rightarrow> int" where
  "round_half_even y =
     (let f = \<lfloor>y\<rfloor>; r = y - of_int f
      in if r < 1 / 2 then f else if 1 / 2 < r then f + 1 else if even f then f else f + 1)"

text \<open>
  Binary64 addition where the sum lies between \<open>2^40\<close> and \<open>2^41\<close> (the clock values of the
  years 2004 to 2039): there the Numbers are the multiples of \<open>2^-12\<close>, and the sum is the
  nearest of them, the even one at a tie.
\<close>

definition binary64_plus_sample :: "real \<Rightarrow> real \<Rightarrow> jsnum" where
  "binary64_plus_sample a b = Fin (of_int (round_half_even ((a + b) * 4096)) / 4096)"

definition env_a :: env where
  "env_a = \<lparr>Date_now = 1700000000000, Math_random = 1 / 4, toLocaleTimeString = ''10:15:30 AM'',
            Number_plus = binary64_plus_sample\<rparr>"

definition env_a' :: env where
  "env_a' = \<lparr>Date_now = 1700000000000, Math_random = 2501 / 10000,
             toLocaleTimeString = ''10:15:30 AM'', Number_plus = binary64_plus_sample\<rparr>"

definition env_b :: env where
  "env_b = \<lparr>Date_now = 1700000000001, Math_random = 1 / 2, toLocaleTimeString = ''10:15:30 AM'',
            Number_plus = binary64_plus_sample\<rparr>"

definition env_c :: env where
  "env_c = \<lparr>Date_now = 1700000000002, Math_random = 3 / 4, toLocaleTimeString = ''10:15:31 AM'',
            Number_plus = binary64_plus_sample\<rparr>"

definition house :: state where
  "house =
     fst (addDevice env_c ''Main Thermostat'' ''thermostat'' ''offline''
       (fst (addDevice env_b ''Bedroom Fan'' ''fan'' ''online''
         (fst (addDevice env_a ''Living Room Light'' ''light'' ''online''
           (DeviceController_constructor []))))))"

definition light :: smart_device where
  "light = snd (addDevice env_a ''Living Room Light'' ''light'' ''online''
                  (DeviceController_constructor []))"

definition thermostat :: smart_device where
  "thermostat = snd (addDevice env_c ''Main Thermostat'' ''thermostat'' ''offline''
                       (DeviceController_constructor []))"

fun digits :: "nat \<Rightarrow> string" where
  "digits n = (if n < 10 then [''0123456789'' ! n]
               else digits (n div 10) @ [''0123456789'' ! (n mod 10)])"

declare digits.simps [simp del]

definition toString_integral :: "jsnum \<Rightarrow> string" where
  "toString_integral n =
     (case n of
        NaN \<Rightarrow> ''NaN''
      | PosInf \<Rightarrow> ''Infinity''
      | NegInf \<Rightarrow> ''-Infinity''
      | Fin r \<Rightarrow> (if r < 0 then ''-'' @ digits (nat \<lfloor>- r\<rfloor>) else digits (nat \<lfloor>r\<rfloor>)))"

definition parseFloat_sample :: "string \<Rightarrow> jsnum" where
  "parseFloat_sample str =
     (if str = ''1700000000001.5'' then Fin (1700000000001 + 1 / 2) else NaN)"

definition sixty_calls :: "(env \<times> string) list" where
  "sixty_calls = map (\<lambda>i. (env_a, ''call '' @ digits i)) [0..<60]"

section \<open>Auxiliary facts\<close>

lemma SmartDevice_constructor_eq:
  "SmartDevice_constructor e nm ty hasAdj param =
     \<lparr>name = nm, type = ty, powerState = False, connectivity = ''online'',
      id_d = Number_plus e (Date_now e) (Math_random e), hasAdjustable = hasAdj,
      adjustableParam = (case param of Some p \<Rightarrow> p
           | None \<Rightarrow> \<lparr>name_p = ''Level'', value_p = Fin 50, min_p = Fin 0, max_p = Fin 100\<rparr>)\<rparr>"
  by (simp add: SmartDevice_constructor_def Device_constructor_def device.defs smart_device.defs)

lemma addDevice_device:
  "snd (addDevice e nm ty conn s) =
     \<lparr>name = nm, type = ty, powerState = False, connectivity = conn,
      id_d = Number_plus e (Date_now e) (Math_random e),
      hasAdjustable = (ty \<in> set [''light'', ''fan'', ''ac'', ''thermostat'']),
      adjustableParam =
        (if ty = ''light'' then
               \<lparr>name_p = ''Brightness'', value_p = Fin 50, min_p = Fin 0, max_p = Fin 100\<rparr>
             else if ty = ''fan'' then
               \<lparr>name_p = ''Speed'', value_p = Fin 3, min_p = Fin 0, max_p = Fin 5\<rparr>
             else if ty = ''ac'' then
               \<lparr>name_p = ''Temperature'', value_p = Fin 24, min_p = Fin 16, max_p = Fin 30\<rparr>
             else if ty = ''thermostat'' then
               \<lparr>name_p = ''Temperature'', value_p = Fin 22, min_p = Fin 16, max_p = Fin 30\<rparr>
             else
               \<lparr>name_p = ''Level'', value_p = Fin 50, min_p = Fin 0, max_p = Fin 100\<rparr>)\<rparr>"
  by (simp add: addDevice_def Let_def SmartDevice_constructor_eq setConnectivity_def)

lemma filter_butlast:
  assumes "ns \<noteq> []"
  shows "filter P (butlast ns) = (if P (last ns) then butlast (filter P ns) else filter P ns)"
proof -
  have "filter P ns = filter P (butlast ns @ [last ns])"
    using assms by simp
  then have "filter P ns = filter P (butlast ns) @ (if P (last ns) then [last ns] else [])"
    by simp
  then show ?thesis by simp
qed

lemma children_loop: "children (logActivity_loop ns) = take 50 (children ns)"
proof (induction ns rule: logActivity_loop.induct)
  case (1 ns)
  show ?case
  proof (cases "50 < length (children ns)")
    case True
    then have ne: "ns \<noteq> []" by (auto simp: children_def)
    have "take 50 (children (butlast ns)) = take 50 (children ns)"
      using True by (simp add: children_def filter_butlast [OF ne] take_butlast)
    with 1 True show ?thesis by (subst logActivity_loop.simps) simp
  next
    case False
    then show ?thesis by (subst logActivity_loop.simps) simp
  qed
qed

lemma children_logActivity:
  "children (activityLog (logActivity e msg s)) =
     take 50 (ElementNode (logEntry (toLocaleTimeString e) msg) # children (activityLog s))"
  by (simp add: logActivity_def Let_def children_loop) (simp add: children_def)

lemma devices_logActivity: "devices (logActivity e msg s) = devices s"
  by (simp add: logActivity_def Let_def)

lemma devices_addDevice:
  "devices (fst (addDevice e nm ty conn s)) = devices s @ [snd (addDevice e nm ty conn s)]"
  by (simp add: addDevice_def Let_def devices_logActivity)

lemma take_append_take: "take n (xs @ take n ys) = take n (xs @ ys)"
  by (simp add: min_def)

lemma children_logActivity_calls:
  "children (activityLog (logActivity_calls cs (logActivity e msg s))) =
     take 50 (rev (map entryOf cs) @ entryOf (e, msg) # children (activityLog s))"
proof (induction cs arbitrary: e msg s)
  case Nil
  show ?case by (simp add: children_logActivity entryOf_def)
next
  case (Cons c cs)
  let ?s1 = "logActivity e msg s"
  have "children (activityLog (logActivity_calls (c # cs) ?s1)) =
          take 50 (rev (map entryOf cs) @ entryOf c # children (activityLog ?s1))"
    using Cons.IH [of "fst c" "snd c" ?s1] by simp
  also have "\<dots> = take 50 ((rev (map entryOf cs) @ [entryOf c])
                        @ take 50 (entryOf (e, msg) # children (activityLog s)))"
    by (simp add: children_logActivity entryOf_def)
  also have "\<dots> = take 50 ((rev (map entryOf cs) @ [entryOf c])
                        @ entryOf (e, msg) # children (activityLog s))"
    by (rule take_append_take)
  finally show ?case by simp
qed

lemma clamp_code_spec:
  assumes "js_le lo hi"
  shows "Math_max lo (Math_min hi v) = clamp_spec v lo hi"
  using assms
  by (cases lo; cases hi; cases v) (auto simp: Math_max_def Math_min_def clamp_spec_def js_le_def js_eq_def)


text \<open>
  The order \<open>min \<le> max\<close> of a profile is set up by \<open>addDevice\<close> and kept by both
  operations, which never write \<open>min\<close> or \<open>max\<close>.
\<close>

lemma profile_order_addDevice:
  "js_le (min_p (adjustableParam (snd (addDevice e nm ty conn s))))
         (max_p (adjustableParam (snd (addDevice e nm ty conn s))))"
  by (simp add: addDevice_device js_le_def js_eq_def)

lemma profile_order_kept:
  assumes "js_le (min_p (adjustableParam d)) (max_p (adjustableParam d))"
  shows "js_le (min_p (adjustableParam (fst (SmartDevice_togglePower d))))
               (max_p (adjustableParam (fst (SmartDevice_togglePower d))))
       \<and> js_le (min_p (adjustableParam (fst (updateAdjustable toStr v d))))
               (max_p (adjustableParam (fst (updateAdjustable toStr v d))))"
  using assms
  by (simp add: SmartDevice_togglePower_def Device_togglePower_def updateAdjustable_def Let_def)

lemma findIndex_ge: "- 1 \<le> findIndex p xs"
  by (induction xs) (auto simp: Let_def)

lemma findIndex_none: "(findIndex p xs = - 1) = (\<forall>x\<in>set xs. \<not> p x)"
proof (induction xs)
  case Nil
  show ?case by simp
next
  case (Cons x xs)
  have "- 1 \<le> findIndex p xs" by (rule findIndex_ge)
  with Cons show ?case by (auto simp: Let_def)
qed

lemma findIndex_split:
  assumes "findIndex p xs \<noteq> - 1"
  shows "\<exists>ys d zs. xs = ys @ d # zs \<and> p d \<and> (\<forall>y\<in>set ys. \<not> p y)
           \<and> findIndex p xs = int (length ys)"
  using assms
proof (induction xs)
  case Nil
  then show ?case by simp
next
  case (Cons x xs)
  show ?case
  proof (cases "p x")
    case True
    then have "x # xs = [] @ x # xs \<and> p x \<and> (\<forall>y\<in>set []. \<not> p y)
        \<and> findIndex p (x # xs) = int (length ([] :: 'a list))"
      by simp
    then show ?thesis by blast
  next
    case False
    with Cons.prems have ne: "findIndex p xs \<noteq> - 1" by (auto simp: Let_def)
    from Cons.IH [OF ne] obtain ys d zs where
      h: "xs = ys @ d # zs" "p d" "\<forall>y\<in>set ys. \<not> p y" "findIndex p xs = int (length ys)"
      by blast
    have "x # xs = (x # ys) @ d # zs \<and> p d \<and> (\<forall>y\<in>set (x # ys). \<not> p y)
        \<and> findIndex p (x # xs) = int (length (x # ys))"
      using h False ne by (simp add: Let_def)
    then show ?thesis by blast
  qed
qed

lemma removeDevice_found:
  assumes "devices s = ys @ d # zs" "id_matches (parsedId pf deviceId) d"
    "\<forall>y\<in>set ys. \<not> id_matches (parsedId pf deviceId) y"
  shows "removeDevice pf e deviceId s =
           (logActivity e (wastebasket @ '' Removed device: \"'' @ name d @ ''\"'')
              (s\<lparr>devices := ys @ zs\<rparr>), True)"
proof -
  let ?p = "id_matches (parsedId pf deviceId)"
  have ne: "findIndex ?p (devices s) \<noteq> - 1"
    using assms by (simp add: findIndex_none)
  from findIndex_split [OF ne] obtain ys' d' zs' where
    h: "devices s = ys' @ d' # zs'" "?p d'" "\<forall>y\<in>set ys'. \<not> ?p y"
       "findIndex ?p (devices s) = int (length ys')"
    by blast
  have "length ys' = length ys"
  proof (rule ccontr)
    assume "length ys' \<noteq> length ys"
    then consider "length ys' < length ys" | "length ys < length ys'" by linarith
    then show False
    proof cases
      case 1
      then have "ys ! length ys' = (ys' @ d' # zs') ! length ys'"
        using assms(1) h(1) by (metis nth_append)
      then have "ys ! length ys' = d'" by simp
      with 1 assms(3) h(2) show False by (metis nth_mem)
    next
      case 2
      then have "ys' ! length ys = (ys @ d # zs) ! length ys"
        using assms(1) h(1) by (metis nth_append)
      then have "ys' ! length ys = d" by simp
      with 2 assms(2) h(3) show False by (metis nth_mem)
    qed
  qed
  then have idx: "nat (findIndex ?p (devices s)) = length ys"
    using h(4) by simp
  have "devices s ! length ys = d" "splice1 (length ys) (devices s) = ys @ zs"
    using assms(1) by (simp_all add: splice1_def)
  with ne idx show ?thesis
    by (simp add: removeDevice_def Let_def)
qed

lemma removeDevice_absent:
  assumes "\<not> (\<exists>d\<in>set (devices s). id_matches (parsedId pf deviceId) d)"
  shows "removeDevice pf e deviceId s = (s, False)"
proof -
  have "findIndex (id_matches (parsedId pf deviceId)) (devices s) = - 1"
    using assms by (simp add: findIndex_none)
  then show ?thesis by (simp add: removeDevice_def Let_def)
qed

lemma no_second_match:
  assumes "distinct (map id_d (ys @ d # zs))" "id_matches pid d"
  shows "find (id_matches pid) (ys @ zs) = None"
proof -
  have "\<not> id_matches pid x" if "x \<in> set (ys @ zs)" for x
  proof
    assume m: "id_matches pid x"
    from m assms(2) have "id_d x = id_d d"
      by (cases pid) (auto simp: js_eq_def)
    moreover have "id_d d \<notin> id_d ` set (ys @ zs)"
      using assms(1) by auto
    ultimately show False using that by (metis imageI)
  qed
  then show ?thesis by (simp add: find_None_iff del: set_append)
qed

lemma toString_100: "toString_integral (Fin 100) = ''100''"
  by (simp add: toString_integral_def digits.simps)

lemma binary64_plus_sample_values:
  "binary64_plus_sample 1700000000000 (1 / 4) = Fin (1700000000000 + 1 / 4)"
  "binary64_plus_sample 1700000000000 (2501 / 10000) = Fin (1700000000000 + 1 / 4)"
  "binary64_plus_sample 1700000000001 (1 / 2) = Fin (1700000000001 + 1 / 2)"
  "binary64_plus_sample 1700000000002 (3 / 4) = Fin (1700000000002 + 3 / 4)"
  by (simp_all add: binary64_plus_sample_def round_half_even_def Let_def)

lemma light_eq:
  "light = \<lparr>name = ''Living Room Light'', type = ''light'', powerState = False,
            connectivity = ''online'', id_d = Fin (1700000000000 + 1 / 4), hasAdjustable = True,
            adjustableParam =
              \<lparr>name_p = ''Brightness'', value_p = Fin 50, min_p = Fin 0, max_p = Fin 100\<rparr>\<rparr>"
  by (simp add: light_def addDevice_device env_a_def binary64_plus_sample_values)

lemma thermostat_eq:
  "thermostat = \<lparr>name = ''Main Thermostat'', type = ''thermostat'', powerState = False,
            connectivity = ''offline'', id_d = Fin (1700000000002 + 3 / 4), hasAdjustable = True,
            adjustableParam =
              \<lparr>name_p = ''Temperature'', value_p = Fin 22, min_p = Fin 16, max_p = Fin 30\<rparr>\<rparr>"
  by (simp add: thermostat_def addDevice_device env_c_def binary64_plus_sample_values)

lemma devices_house:
  "devices house =
     [\<lparr>name = ''Living Room Light'', type = ''light'', powerState = False,
       connectivity = ''online'', id_d = Fin (1700000000000 + 1 / 4), hasAdjustable = True,
       adjustableParam =
         \<lparr>name_p = ''Brightness'', value_p = Fin 50, min_p = Fin 0, max_p = Fin 100\<rparr>\<rparr>,
      \<lparr>name = ''Bedroom Fan'', type = ''fan'', powerState = False,
       connectivity = ''online'', id_d = Fin (1700000000001 + 1 / 2), hasAdjustable = True,
       adjustableParam =
         \<lparr>name_p = ''Speed'', value_p = Fin 3, min_p = Fin 0, max_p = Fin 5\<rparr>\<rparr>,
      \<lparr>name = ''Main Thermostat'', type = ''thermostat'', powerState = False,
       connectivity = ''offline'', id_d = Fin (1700000000002 + 3 / 4), hasAdjustable = True,
       adjustableParam =
         \<lparr>name_p = ''Temperature'', value_p = Fin 22, min_p = Fin 16, max_p = Fin 30\<rparr>\<rparr>]"
  by (simp add: house_def devices_addDevice addDevice_device DeviceController_constructor_def
      env_a_def env_b_def env_c_def binary64_plus_sample_values)

section \<open>Offline devices reject every operation\<close>

text \<open>
  C1. On a device whose connectivity is "offline", \<open>togglePower()\<close> (the base method and
  the override) and \<open>updateAdjustable(v)\<close>, for any \<open>v\<close>, return the failure outcome
  \<open>{success: false, message: "Device is offline"}\<close> and hand back the device as it was:
  \<open>powerState\<close>, \<open>adjustableParam.value\<close> and every other field are untouched.
\<close>

theorem offline_operations_rejected:
  assumes "connectivity d = ''offline''"
  shows "Device_togglePower d = (d, \<lparr>success = False, message = ''Device is offline''\<rparr>)
       \<and> SmartDevice_togglePower d = (d, \<lparr>success = False, message = ''Device is offline''\<rparr>)
       \<and> updateAdjustable toStr v d = (d, \<lparr>success = False, message = ''Device is offline''\<rparr>)
       \<and> powerState (fst (SmartDevice_togglePower d)) = powerState d
       \<and> value_p (adjustableParam (fst (updateAdjustable toStr v d))) = value_p (adjustableParam d)"
  using assms by (simp add: SmartDevice_togglePower_def Device_togglePower_def updateAdjustable_def)

theorem offline_operations_rejected_witness:
  "connectivity thermostat = ''offline''
 \<and> SmartDevice_togglePower thermostat =
     (thermostat, \<lparr>success = False, message = ''Device is offline''\<rparr>)
 \<and> updateAdjustable toString_integral (Fin 25) thermostat =
     (thermostat, \<lparr>success = False, message = ''Device is offline''\<rparr>)
 \<and> powerState thermostat = False
 \<and> value_p (adjustableParam thermostat) = Fin 22"
proof -
  have off: "connectivity thermostat = ''offline''"
    by (simp add: thermostat_eq)
  from offline_operations_rejected [OF off, of toString_integral "Fin 25"] off show ?thesis
    by (simp add: thermostat_eq)
qed

section \<open>Clamping of the requested value\<close>

text \<open>
  C2. On a device that is not offline and whose profile has \<open>min \<le> max\<close> (every profile
  of \<open>addDevice\<close> has, and no operation changes \<open>min\<close> or \<open>max\<close>), \<open>updateAdjustable(v)\<close>
  stores the clamp of \<open>v\<close>: \<open>min\<close> for a value below \<open>min\<close>, \<open>max\<close> for a value above
  \<open>max\<close>, \<open>v\<close> itself for a value in the range. The outcome is a success whose message is
  the parameter's name, " set to " and the stored value, not the requested one. (NaN is
  in none of the three cases; it is stored as it is.)
\<close>

theorem updateAdjustable_clamps:
  assumes "connectivity d \<noteq> ''offline''"
    and "js_le (min_p (adjustableParam d)) (max_p (adjustableParam d))"
  shows "(let lo = min_p (adjustableParam d); hi = max_p (adjustableParam d);
              r = updateAdjustable toStr v d;
              stored = value_p (adjustableParam (fst r))
          in stored = clamp_spec v lo hi
           \<and> (js_lt v lo \<longrightarrow> stored = lo)
           \<and> (js_lt hi v \<longrightarrow> stored = hi)
           \<and> (js_le lo v \<and> js_le v hi \<longrightarrow> stored = v)
           \<and> snd r = \<lparr>success = True,
                       message = name_p (adjustableParam d) @ '' set to '' @ toStr stored\<rparr>)"
proof -
  let ?lo = "min_p (adjustableParam d)" and ?hi = "max_p (adjustableParam d)"
  have code: "Math_max ?lo (Math_min ?hi v) = clamp_spec v ?lo ?hi"
    using assms(2) by (rule clamp_code_spec)
  have below: "js_lt v ?lo \<Longrightarrow> clamp_spec v ?lo ?hi = ?lo"
    by (simp add: clamp_spec_def)
  have above: "js_lt ?hi v \<Longrightarrow> clamp_spec v ?lo ?hi = ?hi"
    using assms(2)
    by (cases ?lo; cases ?hi; cases v) (auto simp: clamp_spec_def js_le_def js_eq_def)
  have inside: "js_le ?lo v \<and> js_le v ?hi \<Longrightarrow> clamp_spec v ?lo ?hi = v"
    by (cases ?lo; cases ?hi; cases v) (auto simp: clamp_spec_def js_le_def js_eq_def)
  show ?thesis
    using assms(1) below above inside
    by (simp add: updateAdjustable_def Let_def code)
qed

theorem updateAdjustable_clamps_witness:
  "connectivity light \<noteq> ''offline''
 \<and> js_le (min_p (adjustableParam light)) (max_p (adjustableParam light))
 \<and> js_lt (max_p (adjustableParam light)) (Fin 150)
 \<and> value_p (adjustableParam (fst (updateAdjustable toString_integral (Fin 150) light))) = Fin 100
 \<and> snd (updateAdjustable toString_integral (Fin 150) light) =
       \<lparr>success = True, message = ''Brightness set to 100''\<rparr>
 \<and> js_lt (Fin (- 5)) (min_p (adjustableParam light))
 \<and> value_p (adjustableParam (fst (updateAdjustable toString_integral (Fin (- 5)) light))) = Fin 0
 \<and> js_le (min_p (adjustableParam light)) (Fin 70) \<and> js_le (Fin 70) (max_p (adjustableParam light))
 \<and> value_p (adjustableParam (fst (updateAdjustable toString_integral (Fin 70) light))) = Fin 70"
proof -
  let ?p = "adjustableParam light"
  let ?stored = "\<lambda>v. value_p (adjustableParam (fst (updateAdjustable toString_integral v light)))"
  have on: "connectivity light \<noteq> ''offline''"
    by (simp add: light_eq)
  have ord: "js_le (min_p ?p) (max_p ?p)"
    by (simp add: light_eq js_le_def)
  have above: "js_lt (max_p ?p) (Fin 150)"
    and below: "js_lt (Fin (- 5)) (min_p ?p)"
    and inside: "js_le (min_p ?p) (Fin 70) \<and> js_le (Fin 70) (max_p ?p)"
    by (simp_all add: light_eq js_le_def)
  note t = updateAdjustable_clamps [OF on ord, of toString_integral, unfolded Let_def]
  from t [of "Fin 150"] above have a: "?stored (Fin 150) = max_p ?p" by blast
  from t [of "Fin 150"] have
    "snd (updateAdjustable toString_integral (Fin 150) light) =
       \<lparr>success = True,
        message = name_p ?p @ '' set to '' @ toString_integral (?stored (Fin 150))\<rparr>"
    by blast
  then have m: "snd (updateAdjustable toString_integral (Fin 150) light) =
       \<lparr>success = True, message = ''Brightness set to 100''\<rparr>"
    unfolding a by (simp add: light_eq toString_100)
  from t [of "Fin (- 5)"] below have b: "?stored (Fin (- 5)) = min_p ?p" by blast
  from t [of "Fin 70"] inside have c: "?stored (Fin 70) = Fin 70" by blast
  have "max_p ?p = Fin 100" "min_p ?p = Fin 0"
    by (simp_all add: light_eq)
  with on ord above below inside a b c m show ?thesis by simp
qed

section \<open>The profile table of addDevice\<close>

text \<open>
  C3. Whatever the type, \<open>addDevice(name, type, connectivity)\<close> returns a device that is
  switched off, with the profile of the table: light (Brightness, 50, 0, 100), fan
  (Speed, 3, 0, 5), ac (Temperature, 24, 16, 30), thermostat (Temperature, 22, 16, 30),
  and (Level, 50, 0, 100) for security and for every other type, which is not refused.
\<close>

theorem addDevice_profile_table:
  "powerState (snd (addDevice e nm ty conn s)) = False
 \<and> adjustableParam (snd (addDevice e nm ''light'' conn s)) =
      \<lparr>name_p = ''Brightness'', value_p = Fin 50, min_p = Fin 0, max_p = Fin 100\<rparr>
 \<and> adjustableParam (snd (addDevice e nm ''fan'' conn s)) =
      \<lparr>name_p = ''Speed'', value_p = Fin 3, min_p = Fin 0, max_p = Fin 5\<rparr>
 \<and> adjustableParam (snd (addDevice e nm ''ac'' conn s)) =
      \<lparr>name_p = ''Temperature'', value_p = Fin 24, min_p = Fin 16, max_p = Fin 30\<rparr>
 \<and> adjustableParam (snd (addDevice e nm ''thermostat'' conn s)) =
      \<lparr>name_p = ''Temperature'', value_p = Fin 22, min_p = Fin 16, max_p = Fin 30\<rparr>
 \<and> adjustableParam (snd (addDevice e nm ''security'' conn s)) =
      \<lparr>name_p = ''Level'', value_p = Fin 50, min_p = Fin 0, max_p = Fin 100\<rparr>
 \<and> (ty \<notin> {''light'', ''fan'', ''ac'', ''thermostat''} \<longrightarrow>
      adjustableParam (snd (addDevice e nm ty conn s)) =
        \<lparr>name_p = ''Level'', value_p = Fin 50, min_p = Fin 0, max_p = Fin 100\<rparr>)"
  by (simp add: addDevice_device)

theorem addDevice_profile_table_witness:
  "''toaster'' \<notin> {''light'', ''fan'', ''ac'', ''thermostat''}
 \<and> adjustableParam (snd (addDevice env_a ''Kitchen Toaster'' ''toaster'' ''online'' house)) =
       \<lparr>name_p = ''Level'', value_p = Fin 50, min_p = Fin 0, max_p = Fin 100\<rparr>
 \<and> powerState (snd (addDevice env_a ''Kitchen Toaster'' ''toaster'' ''online'' house)) = False"
proof -
  have unknown: "''toaster'' \<notin> {''light'', ''fan'', ''ac'', ''thermostat''}"
    by simp
  from addDevice_profile_table [of env_a "''Kitchen Toaster''" "''toaster''" "''online''" house] unknown
  show ?thesis by blast
qed

section \<open>Removing a device\<close>

text \<open>
  What \<open>removeDevice(id)\<close> does in every registry. If some device matches the id, the first
  match leaves the array and the devices before and after it keep their order, the entry
  "Removed device" comes first in the log and the call returns true; where the ids of the
  registry are distinct, \<open>getDevice(id)\<close> then finds nothing. If no device matches, the call
  returns false and the registry and the log are as before.
\<close>

lemma removeDevice_contract:
  "(let pid = parsedId pf deviceId; r = removeDevice pf e deviceId s
    in ((\<exists>d\<in>set (devices s). id_matches pid d) \<longrightarrow>
          (\<exists>ys d zs. devices s = ys @ d # zs \<and> id_matches pid d
              \<and> (\<forall>y\<in>set ys. \<not> id_matches pid y)
              \<and> devices (fst r) = ys @ zs
              \<and> children (activityLog (fst r)) =
                  take 50 (ElementNode (logEntry (toLocaleTimeString e)
                             (wastebasket @ '' Removed device: \"'' @ name d @ ''\"''))
                           # children (activityLog s)))
          \<and> Suc (length (devices (fst r))) = length (devices s)
          \<and> snd r = True
          \<and> (distinct (map id_d (devices s)) \<longrightarrow> getDevice pf deviceId (fst r) = None))
     \<and> (\<not> (\<exists>d\<in>set (devices s). id_matches pid d) \<longrightarrow> r = (s, False)))"
proof -
  let ?pid = "parsedId pf deviceId"
  let ?r = "removeDevice pf e deviceId s"
  have absent: "?r = (s, False)" if "\<not> (\<exists>d\<in>set (devices s). id_matches ?pid d)"
    using that by (rule removeDevice_absent)
  have present:
    "(\<exists>ys d zs. devices s = ys @ d # zs \<and> id_matches ?pid d
              \<and> (\<forall>y\<in>set ys. \<not> id_matches ?pid y)
              \<and> devices (fst ?r) = ys @ zs
              \<and> children (activityLog (fst ?r)) =
                  take 50 (ElementNode (logEntry (toLocaleTimeString e)
                             (wastebasket @ '' Removed device: \"'' @ name d @ ''\"''))
                           # children (activityLog s)))
          \<and> Suc (length (devices (fst ?r))) = length (devices s)
          \<and> snd ?r = True
          \<and> (distinct (map id_d (devices s)) \<longrightarrow> getDevice pf deviceId (fst ?r) = None)"
    if "\<exists>d\<in>set (devices s). id_matches ?pid d"
  proof -
    from that have "findIndex (id_matches ?pid) (devices s) \<noteq> - 1"
      by (simp add: findIndex_none)
    from findIndex_split [OF this] obtain ys d zs where
      h: "devices s = ys @ d # zs" "id_matches ?pid d" "\<forall>y\<in>set ys. \<not> id_matches ?pid y"
      by blast
    let ?m = "wastebasket @ '' Removed device: \"'' @ name d @ ''\"''"
    have r: "?r = (logActivity e ?m (s\<lparr>devices := ys @ zs\<rparr>), True)"
      using h by (rule removeDevice_found)
    have d1: "devices (fst ?r) = ys @ zs"
      by (simp add: r devices_logActivity)
    have l1: "children (activityLog (fst ?r)) =
         take 50 (ElementNode (logEntry (toLocaleTimeString e) ?m) # children (activityLog s))"
      by (simp add: r children_logActivity)
    have g1: "getDevice pf deviceId (fst ?r) = None" if "distinct (map id_d (devices s))"
    proof -
      from that h(1) have "distinct (map id_d (ys @ d # zs))" by simp
      then have "find (id_matches ?pid) (ys @ zs) = None"
        using h(2) by (rule no_second_match)
      then show ?thesis by (simp add: getDevice_def d1)
    qed
    have len: "Suc (length (devices (fst ?r))) = length (devices s)"
      by (simp add: d1 h(1))
    from h d1 l1 have
      "\<exists>ys d zs. devices s = ys @ d # zs \<and> id_matches ?pid d
              \<and> (\<forall>y\<in>set ys. \<not> id_matches ?pid y)
              \<and> devices (fst ?r) = ys @ zs
              \<and> children (activityLog (fst ?r)) =
                  take 50 (ElementNode (logEntry (toLocaleTimeString e)
                             (wastebasket @ '' Removed device: \"'' @ name d @ ''\"''))
                           # children (activityLog s))"
      by blast
    with len g1 show ?thesis by (simp add: r)
  qed
  show ?thesis
    unfolding Let_def using absent present by blast
qed

lemma removeDevice_contract_example:
  "(\<exists>d\<in>set (devices house). id_matches (parsedId parseFloat_sample (JStr ''1700000000001.5'')) d)
 \<and> distinct (map id_d (devices house))
 \<and> snd (removeDevice parseFloat_sample env_c (JStr ''1700000000001.5'') house) = True
 \<and> map name (devices (fst (removeDevice parseFloat_sample env_c (JStr ''1700000000001.5'') house)))
     = [''Living Room Light'', ''Main Thermostat'']
 \<and> getDevice parseFloat_sample (JStr ''1700000000001.5'')
       (fst (removeDevice parseFloat_sample env_c (JStr ''1700000000001.5'') house)) = None
 \<and> \<not> (\<exists>d\<in>set (devices house). id_matches (parsedId parseFloat_sample (JStr ''kitchen'')) d)
 \<and> removeDevice parseFloat_sample env_c (JStr ''kitchen'') house = (house, False)"
proof -
  let ?id = "JStr ''1700000000001.5''"
  let ?r = "removeDevice parseFloat_sample env_c ?id house"
  have present: "\<exists>d\<in>set (devices house). id_matches (parsedId parseFloat_sample ?id) d"
    by (simp add: devices_house parsedId_def parseFloat_sample_def js_eq_def)
  have uniq: "distinct (map id_d (devices house))"
    by (simp add: devices_house)
  have absent: "\<not> (\<exists>d\<in>set (devices house).
      id_matches (parsedId parseFloat_sample (JStr ''kitchen'')) d)"
    by (simp add: devices_house parsedId_def parseFloat_sample_def js_eq_def)
  note t = removeDevice_contract [of parseFloat_sample _ env_c house, unfolded Let_def]
  note found = t [of ?id, THEN conjunct1, THEN mp, OF present]
  note ok = found [THEN conjunct2, THEN conjunct2, THEN conjunct1]
  note gone = found [THEN conjunct2, THEN conjunct2, THEN conjunct2, THEN mp, OF uniq]
  note no = t [of "JStr ''kitchen''", THEN conjunct2, THEN mp, OF absent]
  have split: "devices house = [devices house ! 0] @ devices house ! 1 # [devices house ! 2]"
    by (simp add: devices_house)
  have m: "id_matches (parsedId parseFloat_sample ?id) (devices house ! 1)"
    by (simp add: devices_house parsedId_def parseFloat_sample_def js_eq_def)
  have n: "\<forall>y\<in>set [devices house ! 0]. \<not> id_matches (parsedId parseFloat_sample ?id) y"
    by (simp add: devices_house parsedId_def parseFloat_sample_def js_eq_def)
  have "devices (fst ?r) = [devices house ! 0] @ [devices house ! 2]"
    unfolding removeDevice_found [OF split m n] by (simp add: devices_logActivity)
  then have names: "map name (devices (fst ?r)) = [''Living Room Light'', ''Main Thermostat'']"
    by (simp add: devices_house)
  show ?thesis
    by (intro conjI present uniq ok names gone absent no)
qed

lemma twin_devices:
  "devices (fst (addDevice env_a ''Bedroom Fan'' ''fan'' ''online''
      (fst (addDevice env_a ''Living Room Light'' ''light'' ''online''
         (DeviceController_constructor []))))) =
     [] @ light #
     [\<lparr>name = ''Bedroom Fan'', type = ''fan'', powerState = False, connectivity = ''online'',
       id_d = Fin (1700000000000 + 1 / 4), hasAdjustable = True,
       adjustableParam =
         \<lparr>name_p = ''Speed'', value_p = Fin 3, min_p = Fin 0, max_p = Fin 5\<rparr>\<rparr>]"
  by (simp add: devices_addDevice addDevice_device DeviceController_constructor_def light_eq
      env_a_def binary64_plus_sample_values)

text \<open>
  C4. The last part of the claim, that \<open>getDevice(id)\<close> reports not-found after a successful
  \<open>removeDevice(id)\<close>, fails in a registry the code reaches: two \<open>addDevice\<close> calls with the
  same runtime answers give "Living Room Light" and "Bedroom Fan" the same id
  1700000000000.25. There \<open>removeDevice(id)\<close> returns true and takes the light out, and
  \<open>getDevice(id)\<close> still returns the fan, whatever \<open>parseFloat\<close> and the clock are.
\<close>

theorem removeDevice_leaves_twin:
  "(let s2 = fst (addDevice env_a ''Bedroom Fan'' ''fan'' ''online''
                (fst (addDevice env_a ''Living Room Light'' ''light'' ''online''
                   (DeviceController_constructor []))));
        r = removeDevice pf e (JNum (Fin (1700000000000 + 1 / 4))) s2
    in map name (devices s2) = [''Living Room Light'', ''Bedroom Fan'']
     \<and> map id_d (devices s2) = [Fin (1700000000000 + 1 / 4), Fin (1700000000000 + 1 / 4)]
     \<and> snd r = True
     \<and> map name (devices (fst r)) = [''Bedroom Fan'']
     \<and> getDevice pf (JNum (Fin (1700000000000 + 1 / 4))) (fst r) \<noteq> None
     \<and> map_option name (getDevice pf (JNum (Fin (1700000000000 + 1 / 4))) (fst r))
         = Some ''Bedroom Fan'')"
proof -
  let ?s2 = "fst (addDevice env_a ''Bedroom Fan'' ''fan'' ''online''
                (fst (addDevice env_a ''Living Room Light'' ''light'' ''online''
                   (DeviceController_constructor []))))"
  let ?fan = "\<lparr>name = ''Bedroom Fan'', type = ''fan'', powerState = False,
       connectivity = ''online'', id_d = Fin (1700000000000 + 1 / 4), hasAdjustable = True,
       adjustableParam =
         \<lparr>name_p = ''Speed'', value_p = Fin 3, min_p = Fin 0, max_p = Fin 5\<rparr>\<rparr>"
  let ?id = "JNum (Fin (1700000000000 + 1 / 4))"
  let ?r = "removeDevice pf e ?id ?s2"
  have m: "id_matches (parsedId pf ?id) light"
    by (simp add: parsedId_def js_eq_def light_eq)
  have r: "?r = (logActivity e (wastebasket @ '' Removed device: \"'' @ name light @ ''\"'')
                   (?s2\<lparr>devices := [] @ [?fan]\<rparr>), True)"
    using twin_devices m by (rule removeDevice_found) simp
  have left: "devices (fst ?r) = [?fan]"
    unfolding r by (simp add: devices_logActivity)
  have found: "getDevice pf ?id (fst ?r) = Some ?fan"
    unfolding getDevice_def left by (simp add: parsedId_def js_eq_def)
  have before: "map name (devices ?s2) = [''Living Room Light'', ''Bedroom Fan'']"
    "map id_d (devices ?s2) = [Fin (1700000000000 + 1 / 4), Fin (1700000000000 + 1 / 4)]"
    unfolding twin_devices by (simp_all add: light_eq)
  have ok: "snd ?r = True"
    unfolding r by simp
  have after: "map name (devices (fst ?r)) = [''Bedroom Fan'']"
    unfolding left by simp
  have still: "getDevice pf ?id (fst ?r) \<noteq> None"
    "map_option name (getDevice pf ?id (fst ?r)) = Some ''Bedroom Fan''"
    unfolding found by simp_all
  show ?thesis
    unfolding Let_def by (intro conjI before ok after still)
qed

section \<open>The bounded activity log\<close>

text \<open>
  C5. \<open>logActivity(message)\<close> puts a new entry first in the log: an element whose inner HTML
  is the template's line break and indentation, the span with the time stamp in brackets,
  a blank, the message, and the closing line break and indentation. It keeps the first 50
  entries: the log holds one entry more than before, or 50 if it held 50 or more, and the
  devices are untouched. After 60 calls in a row, from any log, exactly 50 entries are
  left: those of the 50 latest calls, each with its own time stamp and message, the newest
  first.
\<close>

theorem logActivity_cap:
  "(let html = (\<lambda>t m. [CHR 0x0A] @ ''            <span class=\"timestamp\">['' @ t
                        @ '']</span> '' @ m @ [CHR 0x0A] @ ''        '');
        new = ElementNode (html (toLocaleTimeString e) msg);
        old = children (activityLog s);
        log = children (activityLog (logActivity e msg s));
        log60 = children (activityLog (logActivity_calls cs s))
    in log = take 50 (new # old)
     \<and> hd log = new
     \<and> length log = min 50 (Suc (length old))
     \<and> (50 \<le> length old \<longrightarrow> length log = 50)
     \<and> devices (logActivity e msg s) = devices s
     \<and> (length cs = 60 \<longrightarrow>
           log60 = map (\<lambda>c. ElementNode (html (toLocaleTimeString (fst c)) (snd c)))
                     (take 50 (rev cs))
         \<and> length log60 = 50))"
proof -
  let ?html = "\<lambda>t m. [CHR 0x0A] @ ''            <span class=\"timestamp\">['' @ t
                        @ '']</span> '' @ m @ [CHR 0x0A] @ ''        ''"
  let ?new = "ElementNode (?html (toLocaleTimeString e) msg)"
  let ?old = "children (activityLog s)"
  let ?log = "children (activityLog (logActivity e msg s))"
  let ?log60 = "children (activityLog (logActivity_calls cs s))"
  have entry: "entryOf c = ElementNode (?html (toLocaleTimeString (fst c)) (snd c))" for c
    by (simp add: entryOf_def logEntry_def)
  have one: "?log = take 50 (?new # ?old)"
    by (simp add: children_logActivity logEntry_def)
  then have first: "hd ?log = ?new"
    by simp
  have len: "length ?log = min 50 (Suc (length ?old))"
    unfolding one by simp
  have cap: "length ?log = 50" if "50 \<le> length ?old"
    unfolding len using that by simp
  have sixty: "?log60 = map (\<lambda>c. ElementNode (?html (toLocaleTimeString (fst c)) (snd c)))
                          (take 50 (rev cs))"
    if "length cs = 60"
  proof -
    from that obtain c cs' where c: "cs = c # cs'" by (cases cs) auto
    have "?log60 =
            take 50 (rev (map entryOf cs') @ entryOf (fst c, snd c) # children (activityLog s))"
      using children_logActivity_calls [of cs' "fst c" "snd c" s] by (simp add: c)
    also have "\<dots> = take 50 (rev (map entryOf cs) @ children (activityLog s))"
      by (simp add: c)
    also have "\<dots> = take 50 (rev (map entryOf cs))"
      using that by simp
    also have "\<dots> = map entryOf (take 50 (rev cs))"
      by (simp add: rev_map take_map)
    finally show ?thesis
      unfolding entry [abs_def] .
  qed
  have len60: "length ?log60 = 50" if "length cs = 60"
    unfolding sixty [OF that] using that by simp
  show ?thesis
    unfolding Let_def
    by (intro conjI impI one first len cap sixty len60 devices_logActivity)
qed

lemma last_sixty_calls: "last sixty_calls = (env_a, ''call 59'')"
proof -
  have "digits 59 = ''59''"
    by (simp add: digits.simps)
  then show ?thesis
    by (simp add: sixty_calls_def last_map)
qed

theorem logActivity_cap_witness:
  "length sixty_calls = 60
 \<and> (children (activityLog (logActivity_calls sixty_calls house)) =
       map (\<lambda>c. ElementNode ([CHR 0x0A] @ ''            <span class=\"timestamp\">[''
                    @ toLocaleTimeString (fst c) @ '']</span> '' @ snd c
                    @ [CHR 0x0A] @ ''        ''))
         (take 50 (rev sixty_calls))
   \<and> length (children (activityLog (logActivity_calls sixty_calls house))) = 50)
 \<and> hd (children (activityLog (logActivity_calls sixty_calls house))) =
       ElementNode ([CHR 0x0A] @ ''            <span class=\"timestamp\">[10:15:30 AM]</span> call 59''
                    @ [CHR 0x0A] @ ''        '')
 \<and> 50 \<le> length (children (activityLog (logActivity_calls sixty_calls house)))
 \<and> length (children (activityLog
       (logActivity env_b ''one more'' (logActivity_calls sixty_calls house)))) = 50
 \<and> hd (children (activityLog
       (logActivity env_b ''one more'' (logActivity_calls sixty_calls house)))) =
       ElementNode ([CHR 0x0A] @ ''            <span class=\"timestamp\">[10:15:30 AM]</span> one more''
                    @ [CHR 0x0A] @ ''        '')"
proof -
  let ?s = "logActivity_calls sixty_calls house"
  have len: "length sixty_calls = 60"
    by (simp add: sixty_calls_def)
  note t = logActivity_cap [of env_a "''first''" house sixty_calls, unfolded Let_def]
  note ab = t [THEN conjunct2, THEN conjunct2, THEN conjunct2, THEN conjunct2, THEN conjunct2,
      THEN mp, OF len]
  have ne: "take 50 (rev sixty_calls) \<noteq> []"
    using len by (cases sixty_calls) auto
  have "hd (take 50 (rev sixty_calls)) = last sixty_calls"
    using len by (cases sixty_calls) (auto simp: hd_append hd_rev)
  then have newest: "hd (children (activityLog ?s)) =
       ElementNode ([CHR 0x0A] @ ''            <span class=\"timestamp\">[10:15:30 AM]</span> call 59''
                    @ [CHR 0x0A] @ ''        '')"
    unfolding ab [THEN conjunct1] using ne
    by (simp add: hd_map last_sixty_calls env_a_def)
  have full: "50 \<le> length (children (activityLog ?s))"
    unfolding ab [THEN conjunct2] by (rule order_refl)
  note u = logActivity_cap [of env_b "''one more''" ?s sixty_calls, unfolded Let_def]
  note c = u [THEN conjunct2, THEN conjunct2, THEN conjunct2, THEN conjunct1, THEN mp, OF full]
  have d: "hd (children (activityLog (logActivity env_b ''one more'' ?s))) =
       ElementNode ([CHR 0x0A] @ ''            <span class=\"timestamp\">[10:15:30 AM]</span> one more''
                    @ [CHR 0x0A] @ ''        '')"
    unfolding u [THEN conjunct2, THEN conjunct1] by (simp add: env_b_def)
  show ?thesis
    by (intro conjI len ab [THEN conjunct1] ab [THEN conjunct2] newest full c d)
qed

section \<open>Who writes connectivity\<close>

text \<open>
  C6, as stated, fails: \<open>setConnectivity\<close> is an operation of the device and changes the
  field. A thermostat is constructed online and is offline after
  \<open>setConnectivity("offline")\<close>.
\<close>

theorem setConnectivity_changes_connectivity:
  "connectivity (setConnectivity ''offline''
      (SmartDevice_constructor env_c ''Main Thermostat'' ''thermostat'' True None))
   \<noteq> connectivity (SmartDevice_constructor env_c ''Main Thermostat'' ''thermostat'' True None)"
  by (simp add: setConnectivity_def SmartDevice_constructor_eq)

text \<open>
  C6, amended. \<open>togglePower\<close>, \<open>updateAdjustable\<close> and \<open>getStatus\<close> leave connectivity as
  it is (\<open>getStatus\<close> reports it). The constructor sets "online"; \<open>setConnectivity(status)\<close>
  sets the field to \<open>status\<close>, and \<open>addDevice\<close> calls it once on the new device, which
  therefore has the connectivity that was asked for.
\<close>

theorem connectivity_writers:
  "connectivity (fst (Device_togglePower d)) = connectivity d
 \<and> connectivity (fst (SmartDevice_togglePower sd)) = connectivity sd
 \<and> connectivity (fst (updateAdjustable toStr v sd)) = connectivity sd
 \<and> connectivity_s (getStatus d) = connectivity d
 \<and> connectivity (setConnectivity st d) = st
 \<and> connectivity (SmartDevice_constructor e nm ty hasAdj param) = ''online''
 \<and> connectivity (snd (addDevice e nm ty conn s)) = conn"
  by (simp add: Device_togglePower_def SmartDevice_togglePower_def updateAdjustable_def
      getStatus_def setConnectivity_def SmartDevice_constructor_eq addDevice_device Let_def)

section \<open>Identifiers\<close>

text \<open>
  C7. The id of a new device is \<open>Date.now() + Math.random()\<close>: it depends on the clock and
  the random draw only, not on the registry. Two \<open>addDevice\<close> calls that get the same
  answers from the runtime give their devices the same id, whether the first device is
  still in the registry or has been removed in between.
\<close>

theorem addDevice_id_collision:
  "id_d (snd (addDevice e nm ty conn s)) = Number_plus e (Date_now e) (Math_random e)
 \<and> id_d (snd (addDevice env_a ''Bedroom Fan'' ''fan'' ''online''
             (fst (addDevice env_a ''Living Room Light'' ''light'' ''online''
                (DeviceController_constructor [])))))
     = id_d (snd (addDevice env_a ''Living Room Light'' ''light'' ''online''
                (DeviceController_constructor [])))
 \<and> \<not> distinct (map id_d (devices
       (fst (addDevice env_a ''Bedroom Fan'' ''fan'' ''online''
          (fst (addDevice env_a ''Living Room Light'' ''light'' ''online''
             (DeviceController_constructor [])))))))
 \<and> devices (fst (removeDevice parseFloat_sample env_a (JNum (id_d light))
                (fst (addDevice env_a ''Living Room Light'' ''light'' ''online''
                   (DeviceController_constructor []))))) = []
 \<and> id_d (snd (addDevice env_a ''Bedroom Fan'' ''fan'' ''online''
             (fst (removeDevice parseFloat_sample env_a (JNum (id_d light))
                (fst (addDevice env_a ''Living Room Light'' ''light'' ''online''
                   (DeviceController_constructor [])))))))
     = id_d light"
proof -
  let ?s1 = "fst (addDevice env_a ''Living Room Light'' ''light'' ''online''
                (DeviceController_constructor []))"
  have d1: "devices ?s1 = [] @ light # []"
    by (simp add: devices_addDevice DeviceController_constructor_def light_def)
  have m: "id_matches (parsedId parseFloat_sample (JNum (id_d light))) light"
    by (simp add: parsedId_def js_eq_def light_eq)
  have "removeDevice parseFloat_sample env_a (JNum (id_d light)) ?s1 =
          (logActivity env_a (wastebasket @ '' Removed device: \"'' @ name light @ ''\"'')
             (?s1\<lparr>devices := [] @ []\<rparr>), True)"
    using d1 m by (rule removeDevice_found) simp
  then have gone: "devices (fst (removeDevice parseFloat_sample env_a (JNum (id_d light)) ?s1)) = []"
    by (simp add: devices_logActivity)
  have same: "id_d (snd (addDevice e nm ty conn s)) = Number_plus e (Date_now e) (Math_random e)"
    for e nm ty conn s
    by (simp add: addDevice_device)
  have "\<not> distinct (map id_d (devices
       (fst (addDevice env_a ''Bedroom Fan'' ''fan'' ''online'' ?s1))))"
    by (simp add: devices_addDevice addDevice_device DeviceController_constructor_def)
  with gone same show ?thesis
    by (simp add: light_def)
qed

text \<open>
  Rounding adds collisions: at this magnitude binary64 addition gives the draws 0.25 and
  0.2501 of the same millisecond the same sum.
\<close>

lemma addDevice_id_rounding_collision:
  "Math_random env_a \<noteq> Math_random env_a'
 \<and> id_d (snd (addDevice env_a' ''Bedroom Fan'' ''fan'' ''online''
             (fst (addDevice env_a ''Living Room Light'' ''light'' ''online''
                (DeviceController_constructor [])))))
     = id_d (snd (addDevice env_a ''Living Room Light'' ''light'' ''online''
                (DeviceController_constructor [])))"
  by (simp add: addDevice_device env_a_def env_a'_def binary64_plus_sample_values)

section \<open>Toggling twice\<close>

text \<open>
  C8. On a device that is not offline, \<open>togglePower()\<close> succeeds and flips \<open>powerState\<close>;
  a second call succeeds and flips it back, and the device is again as it was.
\<close>

theorem togglePower_twice:
  assumes "connectivity d \<noteq> ''offline''"
  shows "powerState (fst (SmartDevice_togglePower d)) = (\<not> powerState d)
       \<and> success (snd (SmartDevice_togglePower d))
       \<and> success (snd (SmartDevice_togglePower (fst (SmartDevice_togglePower d))))
       \<and> powerState (fst (SmartDevice_togglePower (fst (SmartDevice_togglePower d)))) = powerState d
       \<and> fst (SmartDevice_togglePower (fst (SmartDevice_togglePower d))) = d"
  using assms by (simp add: SmartDevice_togglePower_def Device_togglePower_def Let_def)

theorem togglePower_twice_witness:
  "connectivity light \<noteq> ''offline''
 \<and> powerState light = False
 \<and> powerState (fst (SmartDevice_togglePower light)) = True
 \<and> message (snd (SmartDevice_togglePower light)) = ''Device turned ON''
 \<and> message (snd (SmartDevice_togglePower (fst (SmartDevice_togglePower light)))) = ''Device turned OFF''
 \<and> fst (SmartDevice_togglePower (fst (SmartDevice_togglePower light))) = light"
proof -
  have on: "connectivity light \<noteq> ''offline''"
    by (simp add: light_eq)
  have m: "message (snd (SmartDevice_togglePower light)) = ''Device turned ON''"
     "message (snd (SmartDevice_togglePower (fst (SmartDevice_togglePower light)))) = ''Device turned OFF''"
    by (simp_all add: light_eq SmartDevice_togglePower_def Device_togglePower_def Let_def)
  from togglePower_twice [OF on] on m show ?thesis
    by (simp add: light_eq)
qed

section \<open>Every device has an adjustable parameter\<close>




section \<open>What the two operations leave alone\<close>

text \<open>
  C10. \<open>togglePower()\<close> leaves id, name, type, connectivity, \<open>hasAdjustable\<close> and the whole
  of \<open>adjustableParam\<close> (its value too) as they are; \<open>updateAdjustable(v)\<close> leaves id, name,
  type, connectivity, \<open>hasAdjustable\<close>, \<open>powerState\<close> and the name, min and max of
  \<open>adjustableParam\<close> as they are.
\<close>

theorem operations_frame:
  "(let d1 = fst (SmartDevice_togglePower d); d2 = fst (updateAdjustable toStr v d)
    in id_d d1 = id_d d \<and> name d1 = name d \<and> type d1 = type d
     \<and> connectivity d1 = connectivity d \<and> hasAdjustable d1 = hasAdjustable d
     \<and> adjustableParam d1 = adjustableParam d
     \<and> id_d d2 = id_d d \<and> name d2 = name d \<and> type d2 = type d
     \<and> connectivity d2 = connectivity d \<and> hasAdjustable d2 = hasAdjustable d
     \<and> name_p (adjustableParam d2) = name_p (adjustableParam d)
     \<and> min_p (adjustableParam d2) = min_p (adjustableParam d)
     \<and> max_p (adjustableParam d2) = max_p (adjustableParam d)
     \<and> powerState d2 = powerState d)"
  by (simp add: SmartDevice_togglePower_def Device_togglePower_def updateAdjustable_def Let_def)

end
